theory Spec2Isabelle
  imports Main "HOL-Library.Multiset" "HOL-Library.Sublist"
begin

section \<open>The DShield connector (dshield\_connector.py)\<close>

text \<open>
  The connector fetches the DShield intel feed, creates one OpenCTI observable per feed
  entry that has an \<open>ip\<close> key, attaches labels to it and writes a summary file. Every
  collaborator outside the file (the \<open>requests\<close> library, the pycti API client, the
  logger, \<open>time.sleep\<close> and the file system) is a parameter of the model: an
  environment \<open>E\<close> of operations over an abstract state, each of which may raise. The
  model threads that state explicitly and records every call the code issues, in order,
  in a trace.
\<close>

subsection \<open>Strings\<close>

text \<open>
  \<open>str.lower()\<close>, on ASCII letters. Python also lower-cases letters outside ASCII; the
  model leaves every other byte unchanged.
\<close>

definition lower_char :: "char \<Rightarrow> char" where
  "lower_char c =
     (case map_of (zip ''ABCDEFGHIJKLMNOPQRSTUVWXYZ'' ''abcdefghijklmnopqrstuvwxyz'') c of
        None \<Rightarrow> c
      | Some l \<Rightarrow> l)"

definition lower :: "string \<Rightarrow> string" where
  "lower s = map lower_char s"

subsection \<open>Data\<close>

text \<open>
  A feed entry is a JSON object; the code reads the keys \<open>ip\<close> and \<open>description\<close>
  only, and the feed gives them string values.
\<close>

type_synonym raw_record = "string \<rightharpoonup> string"

text \<open>
  Exceptions, by the classes the handlers of the source tell apart. All of them are
  subclasses of \<open>Exception\<close>; the string is \<open>str(e)\<close>.
\<close>

datatype exn =
    RequestException string
  | JSONDecodeError string
  | Exception string

text \<open>The dictionaries the API client returns, by the keys the code reads.\<close>

record label =
  lbl_id :: string
  lbl_value :: string

record observable =
  obs_id :: string

record reference =
  ref_id :: string

record identity =
  org_id :: string

text \<open>The keyword arguments of \<open>stix_cyber_observable.create\<close>.\<close>

record observable_args =
  simple_observable_key :: string
  simple_observable_value :: string
  objectMarking :: "string list"
  externalReferences :: "string list"
  createdBy :: string
  x_opencti_score :: int
  x_opencti_create_indicator :: bool
  x_opencti_main_observable_type :: string

text \<open>The summary: \<open>output["labels"]\<close> and \<open>output["objects"]\<close>.\<close>

record object_entry =
  obj_type :: string
  obj_value :: string
  obj_labels :: "string list"

record output_dict =
  out_labels :: "string list"
  out_objects :: "object_entry list"

text \<open>The instance attributes the methods read.\<close>

record connector =
  organization :: identity
  score :: int

record args =
  test :: bool
  debug :: bool

subsection \<open>Effects\<close>

datatype level = DEBUG | INFO | ERROR

text \<open>One constructor for each message the source logs, with the values it formats.\<close>

datatype log_msg =
    Checking_for_label string
  | Found_existing_label string
  | Creating_new_label string
  | Failed_to_add_label string string exn
  | Successfully_fetched nat
  | Error_fetching exn
  | Error_parsing exn
  | Unexpected_error_fetching exn
  | Extracted_unique_labels "string list"
  | Total_unique_labels nat
  | Creating_observable string "string list"
  | Successfully_created_observable string
  | Total_objects_created nat
  | Data_saved_to string
  | Error_saving string exn
  | Fetching_data
  | No_data_received
  | Creating_objects
  | Saving_data
  | Run_completed
  | Error_in_run exn

text \<open>Every call that leaves the connector, with its arguments.\<close>

datatype event =
    Logger level log_msg
  | Logger_setLevel level
  | Helper_log_error log_msg
  | Sleep_half_second
  | Requests_get string
  | Helper_init
  | External_reference_create string string
  | Identity_create string string string "string list"
  | Label_list string
  | Label_create string string
  | Observable_create observable_args
  | Add_label string string
  | File_write string output_dict

text \<open>
  The environment. An operation takes the collaborators' state and returns its outcome
  (\<open>Inl\<close> an exception raised) and the new state. \<open>requests_get_json\<close> stands for
  \<open>requests.get\<close>, \<open>raise_for_status\<close> and \<open>response.json\<close> together,
  \<open>connector_helper\<close> for the constructor of the pycti helper, and \<open>json_dump\<close> for
  opening the file and writing to it. \<open>stix_cyber_observable_create\<close> returns \<open>None\<close>
  for a result that Python takes as false; the other results are the dictionaries the code
  indexes without a test.
\<close>

record 's env =
  requests_get_json :: "string \<Rightarrow> 's \<Rightarrow> (exn + raw_record list) \<times> 's"
  connector_helper :: "'s \<Rightarrow> (exn + unit) \<times> 's"
  external_reference_create :: "string \<Rightarrow> string \<Rightarrow> 's \<Rightarrow> (exn + reference) \<times> 's"
  identity_create ::
    "string \<Rightarrow> string \<Rightarrow> string \<Rightarrow> string list \<Rightarrow> 's \<Rightarrow> (exn + identity) \<times> 's"
  label_list :: "string \<Rightarrow> 's \<Rightarrow> (exn + label list) \<times> 's"
  label_create :: "string \<Rightarrow> string \<Rightarrow> 's \<Rightarrow> (exn + label) \<times> 's"
  stix_cyber_observable_create :: "observable_args \<Rightarrow> 's \<Rightarrow> (exn + observable option) \<times> 's"
  stix_cyber_observable_add_label :: "string \<Rightarrow> string \<Rightarrow> 's \<Rightarrow> (exn + unit) \<times> 's"
  json_dump :: "string \<Rightarrow> output_dict \<Rightarrow> 's \<Rightarrow> (exn + unit) \<times> 's"

record 's world =
  ext :: 's
  trace :: "event list"

definition emit :: "event \<Rightarrow> 's world \<Rightarrow> 's world" where
  "emit e w = w\<lparr>trace := trace w @ [e]\<rparr>"

definition invoke :: "event \<Rightarrow> ('s \<Rightarrow> 'a \<times> 's) \<Rightarrow> 's world \<Rightarrow> 'a \<times> 's world" where
  "invoke e f w = (case f (ext w) of (r, s') \<Rightarrow> (r, \<lparr>ext = s', trace = trace w @ [e]\<rparr>))"

definition logger_info :: "log_msg \<Rightarrow> 's world \<Rightarrow> 's world" where
  "logger_info m = emit (Logger INFO m)"

definition logger_error :: "log_msg \<Rightarrow> 's world \<Rightarrow> 's world" where
  "logger_error m = emit (Logger ERROR m)"

definition helper_log_error :: "log_msg \<Rightarrow> 's world \<Rightarrow> 's world" where
  "helper_log_error m = emit (Helper_log_error m)"

definition time_sleep :: "'s world \<Rightarrow> 's world" where
  "time_sleep = emit Sleep_half_second"

subsection \<open>The connector\<close>

definition feed_url :: string where
  "feed_url = ''https://isc.sans.edu/api/intelfeed?json''"

definition default_color :: string where
  "default_color = ''#ffa500''"

text \<open>\<open>stix2.TLP_GREEN["id"]\<close>, a constant of the stix2 library.\<close>

definition TLP_GREEN_id :: string where
  "TLP_GREEN_id = ''marking-definition--34098fce-860f-48ae-8e50-ebd3cc5e41da''"

text \<open>\<open>__init__\<close>, given the confidence level read from the process environment.\<close>

definition init :: "'s env \<Rightarrow> int \<Rightarrow> 's world \<Rightarrow> (exn + connector) \<times> 's world" where
  "init E confidence_level w0 =
     (case invoke Helper_init (connector_helper E) w0 of
        (Inl e, w1) \<Rightarrow> (Inl e, w1)
      | (Inr _, w1) \<Rightarrow>
          (case invoke (External_reference_create ''dshield.org'' ''https://dshield.org/'')
                  (external_reference_create E ''dshield.org'' ''https://dshield.org/'') w1 of
             (Inl e, w2) \<Rightarrow> (Inl e, w2)
           | (Inr external_reference_org, w2) \<Rightarrow>
               (case invoke
                       (Identity_create ''Organization'' ''DShield''
                          ''DShield Intel Feed importer'' [ref_id external_reference_org])
                       (identity_create E ''Organization'' ''DShield''
                          ''DShield Intel Feed importer'' [ref_id external_reference_org]) w2 of
                  (Inl e, w3) \<Rightarrow> (Inl e, w3)
                | (Inr org, w3) \<Rightarrow>
                    (Inr \<lparr>organization = org, score = confidence_level\<rparr>, w3))))"

text \<open>\<open>get_label\<close>: the first label of the search result whose value matches wins.\<close>

definition get_label ::
  "'s env \<Rightarrow> string \<Rightarrow> string \<Rightarrow> 's world \<Rightarrow> (exn + string) \<times> 's world" where
  "get_label E label_value color w0 =
     (let w1 = logger_info (Checking_for_label label_value) w0
      in case invoke (Label_list label_value) (label_list E label_value) w1 of
        (Inl e, w2) \<Rightarrow> (Inl e, w2)
      | (Inr labels, w2) \<Rightarrow>
          (case find (\<lambda>l. lower (lbl_value l) = lower label_value) labels of
             Some l \<Rightarrow> (Inr (lbl_id l), logger_info (Found_existing_label label_value) w2)
           | None \<Rightarrow>
               (let w3 = logger_info (Creating_new_label label_value) w2
                in case invoke (Label_create label_value color)
                          (label_create E label_value color) w3 of
                  (Inl e, w4) \<Rightarrow> (Inl e, w4)
                | (Inr new_label, w4) \<Rightarrow> (Inr (lbl_id new_label), w4))))"

text \<open>The body of the \<open>try\<close> in the label loop of \<open>create_observable\<close>.\<close>

definition try_add_label ::
  "'s env \<Rightarrow> observable \<Rightarrow> string \<Rightarrow> 's world \<Rightarrow> (exn + unit) \<times> 's world" where
  "try_add_label E obs lbl w0 =
     (case get_label E lbl default_color w0 of
        (Inl e, w1) \<Rightarrow> (Inl e, w1)
      | (Inr lid, w1) \<Rightarrow>
          (if lid \<noteq> [] then
             (case invoke (Add_label (obs_id obs) lid)
                     (stix_cyber_observable_add_label E (obs_id obs) lid) (time_sleep w1) of
                (Inl e, w2) \<Rightarrow> (Inl e, w2)
              | (Inr _, w2) \<Rightarrow> (Inr (), w2))
           else (Inr (), w1)))"

text \<open>One iteration: the \<open>try\<close> with its \<open>except Exception\<close> handler.\<close>

definition add_label_step ::
  "'s env \<Rightarrow> observable \<Rightarrow> string \<Rightarrow> string \<Rightarrow> 's world \<Rightarrow> 's world" where
  "add_label_step E obs observable_value lbl w0 =
     (case try_add_label E obs lbl w0 of
        (Inl e, w1) \<Rightarrow>
          time_sleep (helper_log_error (Failed_to_add_label lbl observable_value e) w1)
      | (Inr _, w1) \<Rightarrow> w1)"

fun add_labels :: "'s env \<Rightarrow> observable \<Rightarrow> string \<Rightarrow> string list \<Rightarrow> 's world \<Rightarrow> 's world" where
  "add_labels E obs observable_value [] w = w"
| "add_labels E obs observable_value (lbl # rest) w =
     add_labels E obs observable_value rest (add_label_step E obs observable_value lbl w)"

text \<open>The keyword arguments \<open>create_observable\<close> passes to the store.\<close>

definition create_kwargs :: "connector \<Rightarrow> string \<Rightarrow> string \<Rightarrow> string \<Rightarrow> string \<Rightarrow> observable_args" where
  "create_kwargs self observable_key observable_value observable_type external_reference_id =
     \<lparr>simple_observable_key = observable_key,
      simple_observable_value = observable_value,
      objectMarking = [TLP_GREEN_id],
      externalReferences = [external_reference_id],
      createdBy = org_id (organization self),
      x_opencti_score = score self,
      x_opencti_create_indicator = True,
      x_opencti_main_observable_type = observable_type\<rparr>"

definition create_observable ::
  "'s env \<Rightarrow> connector \<Rightarrow> string \<Rightarrow> string \<Rightarrow> string \<Rightarrow> string \<Rightarrow> string \<Rightarrow> string list \<Rightarrow>
     's world \<Rightarrow> (exn + observable option) \<times> 's world" where
  "create_observable E self observable_key observable_value description observable_type
       external_reference_id labels w0 =
     (let a = create_kwargs self observable_key observable_value observable_type
                external_reference_id
      in case invoke (Observable_create a) (stix_cyber_observable_create E a) w0 of
        (Inl e, w1) \<Rightarrow> (Inl e, w1)
      | (Inr None, w1) \<Rightarrow> (Inr None, w1)
      | (Inr (Some obs), w1) \<Rightarrow>
          (Inr (Some obs),
           if labels \<noteq> [] then add_labels E obs observable_value labels w1 else w1))"

text \<open>
  \<open>fetch_dshield_data\<close>: the three handlers differ in the message only, and each returns
  the empty list.
\<close>

definition fetch_dshield_data :: "'s env \<Rightarrow> 's world \<Rightarrow> raw_record list \<times> 's world" where
  "fetch_dshield_data E w0 =
     (case invoke (Requests_get feed_url) (requests_get_json E feed_url) w0 of
        (Inr data, w1) \<Rightarrow> (data, logger_info (Successfully_fetched (length data)) w1)
      | (Inl (RequestException m), w1) \<Rightarrow>
          ([], logger_error (Error_fetching (RequestException m)) w1)
      | (Inl (JSONDecodeError m), w1) \<Rightarrow>
          ([], logger_error (Error_parsing (JSONDecodeError m)) w1)
      | (Inl (Exception m), w1) \<Rightarrow>
          ([], logger_error (Unexpected_error_fetching (Exception m)) w1))"

text \<open>
  \<open>extract_labels\<close>. The Python set is a list without duplicates; the order in which
  \<open>list(labels)\<close> enumerates a set is not fixed by Python, so only the elements of the
  result mean anything.
\<close>

fun collect_labels :: "raw_record list \<Rightarrow> string list \<Rightarrow> string list" where
  "collect_labels [] labels = labels"
| "collect_labels (entry # rest) labels =
     (case entry ''description'' of
        None \<Rightarrow> collect_labels rest labels
      | Some d \<Rightarrow> collect_labels rest (List.insert (lower d) labels))"

definition extract_labels :: "raw_record list \<Rightarrow> 's world \<Rightarrow> string list \<times> 's world" where
  "extract_labels data w0 =
     (let labels = collect_labels data []
      in (labels, logger_info (Extracted_unique_labels labels) w0))"

text \<open>The labels of one entry: the base label, then the description's.\<close>

definition entry_labels :: "raw_record \<Rightarrow> string list" where
  "entry_labels entry =
     (case entry ''description'' of
        None \<Rightarrow> [''dshield'']
      | Some d \<Rightarrow> [''dshield''] @ [lower d])"

text \<open>The body of the loop over the entries; \<open>objects\<close> is \<open>output["objects"]\<close>.\<close>

definition process_entry ::
  "'s env \<Rightarrow> connector \<Rightarrow> reference \<Rightarrow> raw_record \<Rightarrow> object_entry list \<Rightarrow> 's world \<Rightarrow>
     (exn + object_entry list) \<times> 's world" where
  "process_entry E self external_reference entry objects w0 =
     (case entry ''ip'' of
        None \<Rightarrow> (Inr objects, w0)
      | Some ip \<Rightarrow>
          (let w1 = logger_info (Creating_observable ip (entry_labels entry)) w0
           in case create_observable E self ''IPv4-Addr.value'' ip
                     (''DShield Intel Feed entry for '' @ ip) ''IPv4-Addr''
                     (ref_id external_reference) (entry_labels entry) w1 of
             (Inl e, w2) \<Rightarrow> (Inl e, w2)
           | (Inr None, w2) \<Rightarrow> (Inr objects, w2)
           | (Inr (Some ip_obs), w2) \<Rightarrow>
               (Inr (objects @
                   [\<lparr>obj_type = ''ipv4-addr'', obj_value = ip,
                     obj_labels = entry_labels entry\<rparr>]),
                logger_info (Successfully_created_observable ip) w2)))"

fun process_entries ::
  "'s env \<Rightarrow> connector \<Rightarrow> reference \<Rightarrow> raw_record list \<Rightarrow> object_entry list \<Rightarrow> 's world \<Rightarrow>
     (exn + object_entry list) \<times> 's world" where
  "process_entries E self external_reference [] objects w = (Inr objects, w)"
| "process_entries E self external_reference (entry # rest) objects w =
     (case process_entry E self external_reference entry objects w of
        (Inl e, w') \<Rightarrow> (Inl e, w')
      | (Inr objects', w') \<Rightarrow> process_entries E self external_reference rest objects' w')"

definition create_opencti_objects ::
  "'s env \<Rightarrow> connector \<Rightarrow> raw_record list \<Rightarrow> bool \<Rightarrow> 's world \<Rightarrow> (exn + output_dict) \<times> 's world" where
  "create_opencti_objects E self data test_mode w0 =
     (case extract_labels data w0 of
        (labels, w1) \<Rightarrow>
          (let w2 = logger_info (Total_unique_labels (length labels)) w1
           in case invoke (External_reference_create ''dshield.org'' feed_url)
                     (external_reference_create E ''dshield.org'' feed_url) w2 of
             (Inl e, w3) \<Rightarrow> (Inl e, w3)
           | (Inr external_reference, w3) \<Rightarrow>
               (case process_entries E self external_reference data [] w3 of
                  (Inl e, w4) \<Rightarrow> (Inl e, w4)
                | (Inr objects, w4) \<Rightarrow>
                    (Inr \<lparr>out_labels = labels, out_objects = objects\<rparr>,
                     logger_info (Total_objects_created (length objects)) w4))))"

definition save_to_json :: "'s env \<Rightarrow> output_dict \<Rightarrow> string \<Rightarrow> 's world \<Rightarrow> 's world" where
  "save_to_json E data filename w0 =
     (case invoke (File_write filename data) (json_dump E filename data) w0 of
        (Inl e, w1) \<Rightarrow> logger_error (Error_saving filename e) w1
      | (Inr _, w1) \<Rightarrow> logger_info (Data_saved_to filename) w1)"

definition run :: "'s env \<Rightarrow> connector \<Rightarrow> bool \<Rightarrow> 's world \<Rightarrow> 's world" where
  "run E self test_mode w0 =
     (case fetch_dshield_data E (logger_info Fetching_data w0) of
        (data, w1) \<Rightarrow>
          (if data = [] then logger_error No_data_received w1
           else
             (case create_opencti_objects E self data test_mode (logger_info Creating_objects w1) of
                (Inl e, w2) \<Rightarrow> logger_error (Error_in_run e) w2
              | (Inr out, w2) \<Rightarrow>
                  logger_info Run_completed
                    (save_to_json E out ''dshield_export.json'' (logger_info Saving_data w2)))))"

text \<open>
  \<open>main\<close>, given the parsed command line. An exception of \<open>__init__\<close> is not handled.
\<close>

definition main :: "'s env \<Rightarrow> args \<Rightarrow> int \<Rightarrow> 's world \<Rightarrow> (exn + unit) \<times> 's world" where
  "main E a confidence_level w0 =
     (let w1 = (if debug a then emit (Logger_setLevel DEBUG) w0 else w0)
      in case init E confidence_level w1 of
        (Inl e, w2) \<Rightarrow> (Inl e, w2)
      | (Inr self, w2) \<Rightarrow> (Inr (), run E self (test a) w2))"

subsection \<open>Reading a trace\<close>

definition label_searches :: "event list \<Rightarrow> string list" where
  "label_searches tr = concat (map (\<lambda>e. case e of Label_list v \<Rightarrow> [v] | _ \<Rightarrow> []) tr)"

definition label_creations :: "event list \<Rightarrow> string list" where
  "label_creations tr = concat (map (\<lambda>e. case e of Label_create v c \<Rightarrow> [v] | _ \<Rightarrow> []) tr)"

definition submitted_values :: "event list \<Rightarrow> string list" where
  "submitted_values tr =
     concat (map (\<lambda>e. case e of Observable_create a \<Rightarrow> [simple_observable_value a] | _ \<Rightarrow> []) tr)"

definition file_writes :: "event list \<Rightarrow> string list" where
  "file_writes tr = concat (map (\<lambda>e. case e of File_write f d \<Rightarrow> [f] | _ \<Rightarrow> []) tr)"

text \<open>
  The calls against the knowledge store: organization, external reference, label,
  observable creation and label attachment.
\<close>

fun is_store_call :: "event \<Rightarrow> bool" where
  "is_store_call (External_reference_create n u) = True"
| "is_store_call (Identity_create t n d r) = True"
| "is_store_call (Label_list v) = True"
| "is_store_call (Label_create v c) = True"
| "is_store_call (Observable_create a) = True"
| "is_store_call (Add_label i l) = True"
| "is_store_call _ = False"

definition store_calls :: "event list \<Rightarrow> event list" where
  "store_calls tr = filter is_store_call tr"

fun is_error_log :: "event \<Rightarrow> bool" where
  "is_error_log (Logger ERROR m) = True"
| "is_error_log (Helper_log_error m) = True"
| "is_error_log _ = False"

definition error_logs :: "event list \<Rightarrow> event list" where
  "error_logs tr = filter is_error_log tr"

text \<open>The labels whose attachment failed, as the handler of the label loop logs them.\<close>

definition failed_labels :: "event list \<Rightarrow> string list" where
  "failed_labels tr =
     concat (map (\<lambda>e. case e of Helper_log_error (Failed_to_add_label l v x) \<Rightarrow> [l] | _ \<Rightarrow> []) tr)"

text \<open>The attachment calls: the observable and the label of each.\<close>

definition attachments :: "event list \<Rightarrow> (string \<times> string) list" where
  "attachments tr = concat (map (\<lambda>e. case e of Add_label i l \<Rightarrow> [(i, l)] | _ \<Rightarrow> []) tr)"

subsection \<open>A store in memory\<close>

text \<open>
  An environment to run the connector on concrete inputs: the feed's response is part of
  the state, labels are kept in a list and searched by value without regard to case, and
  a plan decides for each call whether it succeeds, raises, or (for the creation of an
  observable) returns nothing.
\<close>

datatype outcome = Succeeds | Raises exn | Returns_nothing

record mem =
  feed :: "exn + raw_record list"
  mem_labels :: "label list"
  mem_files :: "(string \<times> output_dict) list"

definition planned :: "(event \<Rightarrow> outcome) \<Rightarrow> event \<Rightarrow> 'a \<Rightarrow> mem \<Rightarrow> mem \<Rightarrow> (exn + 'a) \<times> mem" where
  "planned plan e r s s' = (case plan e of Raises x \<Rightarrow> (Inl x, s) | _ \<Rightarrow> (Inr r, s'))"

definition mem_env :: "(event \<Rightarrow> outcome) \<Rightarrow> mem env" where
  "mem_env plan =
     \<lparr>requests_get_json = (\<lambda>url s. (feed s, s)),
      connector_helper = (\<lambda>s. planned plan Helper_init () s s),
      external_reference_create =
        (\<lambda>n u s. planned plan (External_reference_create n u) \<lparr>ref_id = ''ref-'' @ n\<rparr> s s),
      identity_create =
        (\<lambda>t n d r s. planned plan (Identity_create t n d r) \<lparr>org_id = ''org-'' @ n\<rparr> s s),
      label_list =
        (\<lambda>v s. planned plan (Label_list v)
           (filter (\<lambda>l. lower (lbl_value l) = lower v) (mem_labels s)) s s),
      label_create =
        (\<lambda>v c s. planned plan (Label_create v c) \<lparr>lbl_id = ''label-'' @ v, lbl_value = v\<rparr> s
           (s\<lparr>mem_labels := mem_labels s @ [\<lparr>lbl_id = ''label-'' @ v, lbl_value = v\<rparr>]\<rparr>)),
      stix_cyber_observable_create =
        (\<lambda>a s. planned plan (Observable_create a)
           (case plan (Observable_create a) of
              Returns_nothing \<Rightarrow> None
            | _ \<Rightarrow> Some \<lparr>obs_id = ''obs-'' @ simple_observable_value a\<rparr>) s s),
      stix_cyber_observable_add_label = (\<lambda>i l s. planned plan (Add_label i l) () s s),
      json_dump =
        (\<lambda>f d s. planned plan (File_write f d) () s (s\<lparr>mem_files := (f, d) # mem_files s\<rparr>))\<rparr>"

definition reliable :: "event \<Rightarrow> outcome" where
  "reliable e = Succeeds"

definition start :: "raw_record list \<Rightarrow> mem world" where
  "start data = \<lparr>ext = \<lparr>feed = Inr data, mem_labels = [], mem_files = []\<rparr>, trace = []\<rparr>"

definition dshield :: connector where
  "dshield = \<lparr>organization = \<lparr>org_id = ''org-DShield''\<rparr>, score = 60\<rparr>"

subsection \<open>What the records carry\<close>

text \<open>The description values of the records that have one, and their \<open>ip\<close> values.\<close>

definition descriptions :: "raw_record list \<Rightarrow> string list" where
  "descriptions data = List.map_filter (\<lambda>entry. entry ''description'') data"

definition ips :: "raw_record list \<Rightarrow> string list" where
  "ips data = List.map_filter (\<lambda>entry. entry ''ip'') data"

text \<open>
  The vocabulary in the specification's words: the lower-cased, non-empty description
  values.
\<close>

definition spec_vocabulary :: "raw_record list \<Rightarrow> string set" where
  "spec_vocabulary data = set (map lower (filter (\<lambda>d. d \<noteq> []) (descriptions data)))"

text \<open>A start at which the request for the feed raises.\<close>

definition failed_start :: "exn \<Rightarrow> mem world" where
  "failed_start x = \<lparr>ext = \<lparr>feed = Inl x, mem_labels = [], mem_files = []\<rparr>, trace = []\<rparr>"

text \<open>Plans under which one kind of call fails.\<close>

definition creation_raises :: "string \<Rightarrow> event \<Rightarrow> outcome" where
  "creation_raises ip e =
     (case e of
        Observable_create a \<Rightarrow>
          if simple_observable_value a = ip then Raises (Exception ''store error'') else Succeeds
      | _ \<Rightarrow> Succeeds)"

definition creation_refused :: "string \<Rightarrow> event \<Rightarrow> outcome" where
  "creation_refused ip e =
     (case e of
        Observable_create a \<Rightarrow>
          if simple_observable_value a = ip then Returns_nothing else Succeeds
      | _ \<Rightarrow> Succeeds)"

definition attachment_raises :: "string \<Rightarrow> event \<Rightarrow> outcome" where
  "attachment_raises lid e =
     (case e of
        Add_label i l \<Rightarrow> if l = lid then Raises (Exception ''rate limit'') else Succeeds
      | _ \<Rightarrow> Succeeds)"

definition label_creation_raises :: "event \<Rightarrow> outcome" where
  "label_creation_raises e =
     (case e of Label_create v c \<Rightarrow> Raises (Exception ''store error'') | _ \<Rightarrow> Succeeds)"

subsection \<open>Labels in the store\<close>

text \<open>
  The store holds a label for \<open>t\<close> when the search for \<open>t\<close> returns a label whose value
  matches \<open>t\<close> without regard to case: this is all \<open>get_label\<close> sees of the store.
\<close>

definition finds :: "'s env \<Rightarrow> 's \<Rightarrow> string \<Rightarrow> bool" where
  "finds E s t =
     (case fst (label_list E t s) of
        Inl x \<Rightarrow> False
      | Inr ls \<Rightarrow> find (\<lambda>l. lower (lbl_value l) = lower t) ls \<noteq> None)"

text \<open>
  A store whose labels persist: a creation call leaves the label where the search finds
  it, and a label that the search finds is still found after any later call of the loop.
\<close>

definition labels_persist :: "'s env \<Rightarrow> bool" where
  "labels_persist E \<longleftrightarrow>
     (\<forall>t c s. finds E (snd (label_create E t c s)) t) \<and>
     (\<forall>t s. finds E s t \<longrightarrow>
        (\<forall>v. finds E (snd (label_list E v s)) t) \<and>
        (\<forall>v c. finds E (snd (label_create E v c s)) t) \<and>
        (\<forall>a. finds E (snd (stix_cyber_observable_create E a s)) t) \<and>
        (\<forall>i l. finds E (snd (stix_cyber_observable_add_label E i l s)) t))"

text \<open>
  The number of creation calls for \<open>t\<close> so far, and the relation between two worlds of a
  run that the proof of their bound maintains.
\<close>

definition creations :: "string \<Rightarrow> 's world \<Rightarrow> nat" where
  "creations t w = count_list (label_creations (trace w)) t"

definition within_one :: "'s env \<Rightarrow> string \<Rightarrow> 's world \<Rightarrow> 's world \<Rightarrow> bool" where
  "within_one E t w w' \<longleftrightarrow>
     (finds E (ext w) t \<longrightarrow> creations t w' = creations t w \<and> finds E (ext w') t) \<and>
     (creations t w' = creations t w \<or>
      creations t w' = Suc (creations t w) \<and> finds E (ext w') t)"

section \<open>Properties\<close>

subsection \<open>Traces\<close>

lemma trace_emit [simp]: "trace (emit e w) = trace w @ [e]"
  by (simp add: emit_def)

lemma ext_emit [simp]: "ext (emit e w) = ext w"
  by (simp add: emit_def)

lemma invoke_eq:
  "invoke e f w = (fst (f (ext w)), \<lparr>ext = snd (f (ext w)), trace = trace w @ [e]\<rparr>)"
  by (simp add: invoke_def split: prod.splits)

lemmas log_defs = logger_info_def logger_error_def helper_log_error_def time_sleep_def

lemma label_searches_append [simp]:
  "label_searches (a @ b) = label_searches a @ label_searches b"
  by (simp add: label_searches_def)

lemma label_searches_Nil [simp]: "label_searches [] = []"
  by (simp add: label_searches_def)

lemma label_searches_Cons [simp]:
  "label_searches (e # tr) = (case e of Label_list v \<Rightarrow> [v] | _ \<Rightarrow> []) @ label_searches tr"
  by (simp add: label_searches_def)

lemma label_creations_append [simp]:
  "label_creations (a @ b) = label_creations a @ label_creations b"
  by (simp add: label_creations_def)

lemma label_creations_Nil [simp]: "label_creations [] = []"
  by (simp add: label_creations_def)

lemma label_creations_Cons [simp]:
  "label_creations (e # tr) = (case e of Label_create v c \<Rightarrow> [v] | _ \<Rightarrow> []) @ label_creations tr"
  by (simp add: label_creations_def)

lemma submitted_values_append [simp]:
  "submitted_values (a @ b) = submitted_values a @ submitted_values b"
  by (simp add: submitted_values_def)

lemma submitted_values_Nil [simp]: "submitted_values [] = []"
  by (simp add: submitted_values_def)

lemma submitted_values_Cons [simp]:
  "submitted_values (e # tr) =
     (case e of Observable_create a \<Rightarrow> [simple_observable_value a] | _ \<Rightarrow> []) @ submitted_values tr"
  by (simp add: submitted_values_def)

lemma file_writes_append [simp]: "file_writes (a @ b) = file_writes a @ file_writes b"
  by (simp add: file_writes_def)

lemma file_writes_Nil [simp]: "file_writes [] = []"
  by (simp add: file_writes_def)

lemma file_writes_Cons [simp]:
  "file_writes (e # tr) = (case e of File_write f d \<Rightarrow> [f] | _ \<Rightarrow> []) @ file_writes tr"
  by (simp add: file_writes_def)

lemma failed_labels_append [simp]: "failed_labels (a @ b) = failed_labels a @ failed_labels b"
  by (simp add: failed_labels_def)

lemma failed_labels_Nil [simp]: "failed_labels [] = []"
  by (simp add: failed_labels_def)

lemma failed_labels_Cons [simp]:
  "failed_labels (e # tr) =
     (case e of Helper_log_error (Failed_to_add_label l v x) \<Rightarrow> [l] | _ \<Rightarrow> []) @ failed_labels tr"
  by (simp add: failed_labels_def)

lemma attachments_append [simp]: "attachments (a @ b) = attachments a @ attachments b"
  by (simp add: attachments_def)

lemma attachments_Nil [simp]: "attachments [] = []"
  by (simp add: attachments_def)

lemma attachments_Cons [simp]:
  "attachments (e # tr) = (case e of Add_label i l \<Rightarrow> [(i, l)] | _ \<Rightarrow> []) @ attachments tr"
  by (simp add: attachments_def)

lemma store_calls_append [simp]: "store_calls (a @ b) = store_calls a @ store_calls b"
  by (simp add: store_calls_def)

lemma store_calls_Nil [simp]: "store_calls [] = []"
  by (simp add: store_calls_def)

lemma store_calls_Cons [simp]:
  "store_calls (e # tr) = (if is_store_call e then e # store_calls tr else store_calls tr)"
  by (simp add: store_calls_def)

lemma error_logs_append [simp]: "error_logs (a @ b) = error_logs a @ error_logs b"
  by (simp add: error_logs_def)

lemma error_logs_Nil [simp]: "error_logs [] = []"
  by (simp add: error_logs_def)

lemma error_logs_Cons [simp]:
  "error_logs (e # tr) = (if is_error_log e then e # error_logs tr else error_logs tr)"
  by (simp add: error_logs_def)

subsection \<open>The vocabulary\<close>

lemma descriptions_Nil [simp]: "descriptions [] = []"
  by (simp add: descriptions_def)

lemma descriptions_Cons:
  "descriptions (e # data) =
     (case e ''description'' of None \<Rightarrow> [] | Some d \<Rightarrow> [d]) @ descriptions data"
  by (simp add: descriptions_def split: option.splits)

lemma set_descriptions:
  "set (descriptions data) = {d. \<exists>e \<in> set data. e ''description'' = Some d}"
  by (induction data) (auto simp: descriptions_Cons split: option.splits)

lemma set_collect_labels:
  "set (collect_labels data acc) = set acc \<union> set (map lower (descriptions data))"
  by (induction data acc rule: collect_labels.induct)
     (auto simp: descriptions_Cons split: option.splits)

lemma distinct_collect_labels:
  "distinct acc \<Longrightarrow> distinct (collect_labels data acc)"
  by (induction data acc rule: collect_labels.induct) (auto split: option.splits)

lemma lower_Nil_iff [simp]: "lower d = [] \<longleftrightarrow> d = []"
  by (simp add: lower_def)

lemma spec_vocabulary_eq: "spec_vocabulary data = set (map lower (descriptions data)) - {[]}"
  by (auto simp: spec_vocabulary_def)

text \<open>
  C6, as stated: the extracted vocabulary is the set of lower-cased, non-empty description
  values. It fails on a record whose description is the empty string: the source tests
  the presence of the key only, so the empty string enters the vocabulary.
\<close>

theorem extract_labels_empty_description:
  "set (fst (extract_labels [[''description'' \<mapsto> '''']] (start []))) \<noteq>
     spec_vocabulary [[''description'' \<mapsto> '''']]"
  by (simp add: extract_labels_def Let_def spec_vocabulary_def descriptions_def lower_def)

text \<open>
  C6, amended: \<open>extract_labels\<close> returns, without duplicates, exactly the lower-cased
  description values of the records that have a description (the empty string among them
  when a record's description is empty, so that the result without the empty string is
  the specification's vocabulary); records without a description contribute nothing, and
  the set is the same for every permutation of the records.
\<close>

theorem extract_labels_vocabulary:
  "set (fst (extract_labels data w)) = set (map lower (descriptions data)) \<and>
   distinct (fst (extract_labels data w)) \<and>
   set (fst (extract_labels data w)) - {[]} = spec_vocabulary data \<and>
   (mset data' = mset data \<longrightarrow>
      set (fst (extract_labels data' w')) = set (fst (extract_labels data w)))"
proof -
  have a: "set (fst (extract_labels data w)) = set (map lower (descriptions data))"
    by (simp add: extract_labels_def Let_def set_collect_labels)
  have a': "set (fst (extract_labels data' w')) = set (map lower (descriptions data'))"
    by (simp add: extract_labels_def Let_def set_collect_labels)
  have b: "distinct (fst (extract_labels data w))"
    by (simp add: extract_labels_def Let_def distinct_collect_labels)
  have c: "set (descriptions data') = set (descriptions data)" if "mset data' = mset data"
  proof -
    from that have "set data' = set data" by (rule mset_eq_setD)
    then show ?thesis by (simp add: set_descriptions)
  qed
  have d: "set (map lower (descriptions data')) = set (map lower (descriptions data))"
    if "mset data' = mset data"
    using c[OF that] by simp
  show ?thesis
    using d by (simp only: a a' b spec_vocabulary_eq simp_thms) blast
qed

theorem extract_labels_vocabulary_witness:
  "set (fst (extract_labels
       [[''description'' \<mapsto> ''Scanner''], [''description'' \<mapsto> ''scanner''],
        [''ip'' \<mapsto> ''1.2.3.4''], [''description'' \<mapsto> ''Malware'']] (start []))) =
     {''scanner'', ''malware''} \<and>
   set (fst (extract_labels
       [[''description'' \<mapsto> ''Malware''], [''description'' \<mapsto> ''Scanner''],
        [''ip'' \<mapsto> ''1.2.3.4''], [''description'' \<mapsto> ''scanner'']] (start []))) =
     {''scanner'', ''malware''}"
proof -
  let ?a = "[''description'' \<mapsto> ''Scanner'']" and ?b = "[''description'' \<mapsto> ''scanner'']"
  let ?c = "[''ip'' \<mapsto> ''1.2.3.4'']" and ?d = "[''description'' \<mapsto> ''Malware'']"
  have m: "mset [?d, ?a, ?c, ?b] = mset [?a, ?b, ?c, ?d]"
    by (simp add: add_mset_commute)
  have v: "set (map lower (descriptions [?a, ?b, ?c, ?d])) = {''scanner'', ''malware''}"
    by (simp add: descriptions_def lower_def lower_char_def insert_commute)
  show ?thesis
    using extract_labels_vocabulary [of "[?a, ?b, ?c, ?d]" "start []" "[?d, ?a, ?c, ?b]" "start []"]
      m v
    by simp
qed

subsection \<open>What each method adds to the trace\<close>

lemmas mem_defs = mem_env_def planned_def reliable_def start_def failed_start_def

lemma get_label_searches:
  "label_searches (trace (snd (get_label E v c w))) = label_searches (trace w) @ [v]"
  by (simp add: get_label_def invoke_eq log_defs Let_def split: sum.splits option.splits)

lemma get_label_creations:
  "label_creations (trace (snd (get_label E v c w))) =
     label_creations (trace w) @
       (case fst (label_list E v (ext w)) of
          Inr ls \<Rightarrow> (if find (\<lambda>l. lower (lbl_value l) = lower v) ls = None then [v] else [])
        | Inl x \<Rightarrow> [])"
  by (simp add: get_label_def invoke_eq log_defs Let_def split: sum.splits option.splits)

lemma get_label_submitted:
  "submitted_values (trace (snd (get_label E v c w))) = submitted_values (trace w)"
  by (simp add: get_label_def invoke_eq log_defs Let_def split: sum.splits option.splits)



lemma try_add_label_searches:
  "label_searches (trace (snd (try_add_label E obs l w))) = label_searches (trace w) @ [l]"
  using get_label_searches[of E l default_color w]
  by (auto simp: try_add_label_def invoke_eq log_defs split: sum.splits prod.splits)

lemma try_add_label_submitted:
  "submitted_values (trace (snd (try_add_label E obs l w))) = submitted_values (trace w)"
  using get_label_submitted[of E l default_color w]
  by (auto simp: try_add_label_def invoke_eq log_defs split: sum.splits prod.splits)



lemma add_label_step_searches:
  "label_searches (trace (add_label_step E obs v l w)) = label_searches (trace w) @ [l]"
  using try_add_label_searches[of E obs l w]
  by (auto simp: add_label_step_def log_defs split: sum.splits prod.splits)

lemma add_label_step_submitted:
  "submitted_values (trace (add_label_step E obs v l w)) = submitted_values (trace w)"
  using try_add_label_submitted[of E obs l w]
  by (auto simp: add_label_step_def log_defs split: sum.splits prod.splits)



lemma add_labels_searches:
  "label_searches (trace (add_labels E obs v ls w)) = label_searches (trace w) @ ls"
  by (induction ls arbitrary: w) (simp_all add: add_label_step_searches)

lemma add_labels_submitted:
  "submitted_values (trace (add_labels E obs v ls w)) = submitted_values (trace w)"
  by (induction ls arbitrary: w) (simp_all add: add_label_step_submitted)


lemma create_observable_submitted:
  "submitted_values (trace (snd (create_observable E self k v d t r ls w))) =
     submitted_values (trace w) @ [v]"
  by (simp add: create_observable_def invoke_eq Let_def create_kwargs_def add_labels_submitted
           split: sum.splits option.splits)


lemma create_observable_result:
  "fst (create_observable E self k v d t r ls w) =
     fst (stix_cyber_observable_create E (create_kwargs self k v t r) (ext w))"
  by (simp add: create_observable_def invoke_eq Let_def split: sum.splits option.splits)

lemma create_observable_searches:
  "label_searches (trace (snd (create_observable E self k v d t r ls w))) =
     label_searches (trace w) @
       (case fst (stix_cyber_observable_create E (create_kwargs self k v t r) (ext w)) of
          Inr (Some obs) \<Rightarrow> ls
        | _ \<Rightarrow> [])"
  by (simp add: create_observable_def invoke_eq Let_def add_labels_searches
           split: sum.splits option.splits)

subsection \<open>The fetch\<close>

text \<open>
  C10, as stated: a network or parse failure reaches the caller of the fetch as an error
  outcome that differs from an empty feed. It does not: every handler of
  \<open>fetch_dshield_data\<close> returns the empty list, the value of an empty feed.
\<close>

theorem fetch_failure_returns_empty_list:
  "fst (fetch_dshield_data (mem_env reliable) (failed_start (RequestException ''connection refused''))) =
   fst (fetch_dshield_data (mem_env reliable) (start []))"
  by (simp add: fetch_dshield_data_def invoke_eq mem_defs)

lemma fetch_dshield_data_fst:
  "fst (fetch_dshield_data E w) =
     (case fst (requests_get_json E feed_url (ext w)) of Inr data \<Rightarrow> data | Inl x \<Rightarrow> [])"
  by (simp add: fetch_dshield_data_def invoke_eq split: sum.splits exn.splits)

lemma fetch_dshield_data_ext:
  "ext (snd (fetch_dshield_data E w)) = snd (requests_get_json E feed_url (ext w))"
  by (simp add: fetch_dshield_data_def invoke_eq log_defs split: sum.splits exn.splits)

lemma fetch_dshield_data_error_logs:
  "error_logs (trace (snd (fetch_dshield_data E w))) =
     error_logs (trace w) @
       (case fst (requests_get_json E feed_url (ext w)) of
          Inr data \<Rightarrow> []
        | Inl (RequestException m) \<Rightarrow> [Logger ERROR (Error_fetching (RequestException m))]
        | Inl (JSONDecodeError m) \<Rightarrow> [Logger ERROR (Error_parsing (JSONDecodeError m))]
        | Inl (Exception m) \<Rightarrow> [Logger ERROR (Unexpected_error_fetching (Exception m))])"
  by (simp add: fetch_dshield_data_def invoke_eq log_defs split: sum.splits exn.splits)

lemma fetch_dshield_data_store_calls:
  "store_calls (trace (snd (fetch_dshield_data E w))) = store_calls (trace w)"
  by (simp add: fetch_dshield_data_def invoke_eq log_defs split: sum.splits exn.splits)

lemma fetch_dshield_data_file_writes:
  "file_writes (trace (snd (fetch_dshield_data E w))) = file_writes (trace w)"
  by (simp add: fetch_dshield_data_def invoke_eq log_defs split: sum.splits exn.splits)

lemma fetch_dshield_data_submitted:
  "submitted_values (trace (snd (fetch_dshield_data E w))) = submitted_values (trace w)"
  by (simp add: fetch_dshield_data_def invoke_eq log_defs split: sum.splits exn.splits)

text \<open>
  C10, amended: the fetch returns the full parsed record list on success; on a network or
  parse failure (or any other exception) it logs one error and returns the empty list, so
  that the caller cannot tell a failure from an empty feed by the result.
\<close>

theorem fetch_dshield_data_outcome:
  "fst (fetch_dshield_data E w) =
     (case fst (requests_get_json E feed_url (ext w)) of Inr data \<Rightarrow> data | Inl x \<Rightarrow> []) \<and>
   error_logs (trace (snd (fetch_dshield_data E w))) =
     error_logs (trace w) @
       (case fst (requests_get_json E feed_url (ext w)) of
          Inr data \<Rightarrow> []
        | Inl (RequestException m) \<Rightarrow> [Logger ERROR (Error_fetching (RequestException m))]
        | Inl (JSONDecodeError m) \<Rightarrow> [Logger ERROR (Error_parsing (JSONDecodeError m))]
        | Inl (Exception m) \<Rightarrow> [Logger ERROR (Unexpected_error_fetching (Exception m))])"
  using fetch_dshield_data_fst[of E w] fetch_dshield_data_error_logs[of E w] by simp

theorem fetch_dshield_data_outcome_witness:
  "fst (fetch_dshield_data (mem_env reliable) (start [[''ip'' \<mapsto> ''1.2.3.4'']])) =
     [[''ip'' \<mapsto> ''1.2.3.4'']] \<and>
   fst (fetch_dshield_data (mem_env reliable) (failed_start (JSONDecodeError ''bad''))) = [] \<and>
   error_logs (trace (snd (fetch_dshield_data (mem_env reliable)
       (failed_start (JSONDecodeError ''bad''))))) =
     [Logger ERROR (Error_parsing (JSONDecodeError ''bad''))]"
  using fetch_dshield_data_outcome [of "mem_env reliable" "start [[''ip'' \<mapsto> ''1.2.3.4'']]"]
    fetch_dshield_data_outcome [of "mem_env reliable" "failed_start (JSONDecodeError ''bad'')"]
  by (simp add: mem_defs)

text \<open>
  C9: when the request for the feed raises or the feed is empty, the run stops after the
  fetch: it issues no call against the store, submits no observable and writes no file,
  and its last act is the error message that no data was received.
\<close>

theorem run_stops_without_data:
  assumes "isl (fst (requests_get_json E feed_url (ext w))) \<or>
           fst (requests_get_json E feed_url (ext w)) = Inr []"
  shows "store_calls (trace (run E self test_mode w)) = store_calls (trace w) \<and>
         submitted_values (trace (run E self test_mode w)) = submitted_values (trace w) \<and>
         file_writes (trace (run E self test_mode w)) = file_writes (trace w) \<and>
         ext (run E self test_mode w) = snd (requests_get_json E feed_url (ext w)) \<and>
         last (trace (run E self test_mode w)) = Logger ERROR No_data_received"
proof -
  let ?w1 = "logger_info Fetching_data w"
  have e: "ext ?w1 = ext w" by (simp add: log_defs)
  have d: "fst (fetch_dshield_data E ?w1) = []"
    using assms by (auto simp: fetch_dshield_data_fst e isl_def)
  have r: "run E self test_mode w = logger_error No_data_received (snd (fetch_dshield_data E ?w1))"
    using d by (simp add: run_def case_prod_unfold)
  show ?thesis
    by (simp add: r log_defs fetch_dshield_data_store_calls fetch_dshield_data_file_writes
          fetch_dshield_data_submitted fetch_dshield_data_ext)
qed

theorem run_stops_without_data_witness:
  "trace (run (mem_env reliable) dshield False (start [])) =
     [Logger INFO Fetching_data, Requests_get feed_url, Logger INFO (Successfully_fetched 0),
      Logger ERROR No_data_received] \<and>
   mem_files (ext (run (mem_env reliable) dshield False (failed_start (RequestException ''down'')))) = [] \<and>
   store_calls (trace (run (mem_env reliable) dshield False (failed_start (RequestException ''down'')))) = [] \<and>
   file_writes (trace (run (mem_env reliable) dshield False (failed_start (RequestException ''down'')))) = []"
proof -
  have a: "isl (fst (requests_get_json (mem_env reliable) feed_url
             (ext (failed_start (RequestException ''down'')))))"
    by (simp add: mem_defs)
  have t: "trace (run (mem_env reliable) dshield False (start [])) =
     [Logger INFO Fetching_data, Requests_get feed_url, Logger INFO (Successfully_fetched 0),
      Logger ERROR No_data_received]"
    by (simp add: run_def fetch_dshield_data_def invoke_eq mem_defs log_defs)
  show ?thesis
    using run_stops_without_data [of "mem_env reliable" "failed_start (RequestException ''down'')" dshield False, OF disjI1, OF a] t
    by (simp add: mem_defs)
qed

subsection \<open>Concrete runs\<close>

lemmas run_defs = run_def fetch_dshield_data_def create_opencti_objects_def extract_labels_def
  process_entry_def create_observable_def create_kwargs_def add_label_step_def
  try_add_label_def get_label_def save_to_json_def entry_labels_def invoke_eq log_defs
  mem_defs dshield_def feed_url_def default_color_def TLP_GREEN_id_def lower_def lower_char_def
  Let_def

subsection \<open>Resolving a label\<close>




subsection \<open>One entry\<close>

lemma ips_Nil [simp]: "ips [] = []"
  by (simp add: ips_def)

lemma ips_Cons:
  "ips (e # data) = (case e ''ip'' of None \<Rightarrow> [] | Some i \<Rightarrow> [i]) @ ips data"
  by (simp add: ips_def split: option.splits)

lemma process_entry_no_ip:
  "entry ''ip'' = None \<Longrightarrow> process_entry E self r entry objects w = (Inr objects, w)"
  by (simp add: process_entry_def)

lemma process_entry_submitted:
  "submitted_values (trace (snd (process_entry E self r entry objects w))) =
     submitted_values (trace w) @ (case entry ''ip'' of None \<Rightarrow> [] | Some i \<Rightarrow> [i])"
  by (simp add: process_entry_def Let_def case_prod_unfold create_observable_submitted log_defs
           split: option.splits sum.splits)


lemma process_entry_result:
  "fst (process_entry E self r entry objects w) =
     (case entry ''ip'' of
        None \<Rightarrow> Inr objects
      | Some i \<Rightarrow>
          (case fst (stix_cyber_observable_create E
                  (create_kwargs self ''IPv4-Addr.value'' i ''IPv4-Addr'' (ref_id r)) (ext w)) of
             Inl x \<Rightarrow> Inl x
           | Inr None \<Rightarrow> Inr objects
           | Inr (Some obs) \<Rightarrow>
               Inr (objects @
                 [\<lparr>obj_type = ''ipv4-addr'', obj_value = i, obj_labels = entry_labels entry\<rparr>])))"
  by (simp add: process_entry_def Let_def case_prod_unfold create_observable_result log_defs
           split: option.splits sum.splits)

lemma process_entry_searches:
  "label_searches (trace (snd (process_entry E self r entry objects w))) =
     label_searches (trace w) @
     (case entry ''ip'' of
        None \<Rightarrow> []
      | Some i \<Rightarrow>
          (case fst (stix_cyber_observable_create E
                  (create_kwargs self ''IPv4-Addr.value'' i ''IPv4-Addr'' (ref_id r)) (ext w)) of
             Inr (Some obs) \<Rightarrow> entry_labels entry
           | _ \<Rightarrow> []))"
  by (simp add: process_entry_def Let_def case_prod_unfold create_observable_result
        create_observable_searches log_defs
           split: option.splits sum.splits)

lemmas plan_defs = creation_raises_def creation_refused_def attachment_raises_def
  label_creation_raises_def

lemma set_entry_labels:
  "set (entry_labels entry) =
     {''dshield''} \<union> (case entry ''description'' of None \<Rightarrow> {} | Some d \<Rightarrow> {lower d})"
  by (simp add: entry_labels_def split: option.splits)

text \<open>
  C7: an entry without an \<open>ip\<close> key leaves everything as it was: no observable is
  submitted, nothing is published and nothing is logged. An entry with an \<open>ip\<close> key
  submits exactly one observable, with that value; its labels are \<open>dshield\<close> and, when
  the entry has a description, the lower-cased description; when the entry is published,
  it is published with these labels, and they are the labels searched for.
\<close>

theorem process_entry_normalizes:
  "(entry ''ip'' = None \<longrightarrow> process_entry E self r entry objects w = (Inr objects, w)) \<and>
   (entry ''ip'' = Some i \<longrightarrow>
      submitted_values (trace (snd (process_entry E self r entry objects w))) =
        submitted_values (trace w) @ [i] \<and>
      set (entry_labels entry) =
        {''dshield''} \<union> (case entry ''description'' of None \<Rightarrow> {} | Some d \<Rightarrow> {lower d}) \<and>
      (isl (fst (process_entry E self r entry objects w)) \<or>
       fst (process_entry E self r entry objects w) = Inr objects \<or>
       fst (process_entry E self r entry objects w) =
         Inr (objects @
           [\<lparr>obj_type = ''ipv4-addr'', obj_value = i, obj_labels = entry_labels entry\<rparr>]) \<and>
       label_searches (trace (snd (process_entry E self r entry objects w))) =
         label_searches (trace w) @ entry_labels entry))"
proof (intro conjI impI)
  assume "entry ''ip'' = None"
  then show "process_entry E self r entry objects w = (Inr objects, w)"
    by (rule process_entry_no_ip)
next
  assume i: "entry ''ip'' = Some i"
  show "submitted_values (trace (snd (process_entry E self r entry objects w))) =
        submitted_values (trace w) @ [i]"
    by (simp add: process_entry_submitted i)
  show "set (entry_labels entry) =
        {''dshield''} \<union> (case entry ''description'' of None \<Rightarrow> {} | Some d \<Rightarrow> {lower d})"
    by (rule set_entry_labels)
  show "isl (fst (process_entry E self r entry objects w)) \<or>
       fst (process_entry E self r entry objects w) = Inr objects \<or>
       fst (process_entry E self r entry objects w) =
         Inr (objects @
           [\<lparr>obj_type = ''ipv4-addr'', obj_value = i, obj_labels = entry_labels entry\<rparr>]) \<and>
       label_searches (trace (snd (process_entry E self r entry objects w))) =
         label_searches (trace w) @ entry_labels entry"
    by (simp add: process_entry_result process_entry_searches i split: sum.splits option.splits)
qed

theorem process_entry_normalizes_witness:
  "process_entry (mem_env reliable) dshield \<lparr>ref_id = ''ref-dshield.org''\<rparr>
      [''description'' \<mapsto> ''x''] [] (start []) = (Inr [], start []) \<and>
   submitted_values (trace (snd (process_entry (mem_env reliable) dshield
      \<lparr>ref_id = ''ref-dshield.org''\<rparr>
      [''ip'' \<mapsto> ''1.2.3.4'', ''description'' \<mapsto> ''botnet''] [] (start [])))) = [''1.2.3.4''] \<and>
   set (entry_labels [''ip'' \<mapsto> ''1.2.3.4'', ''description'' \<mapsto> ''botnet'']) =
     {''dshield'', ''botnet''} \<and>
   fst (process_entry (mem_env reliable) dshield \<lparr>ref_id = ''ref-dshield.org''\<rparr>
      [''ip'' \<mapsto> ''1.2.3.4'', ''description'' \<mapsto> ''botnet''] [] (start [])) =
     Inr [\<lparr>obj_type = ''ipv4-addr'', obj_value = ''1.2.3.4'',
           obj_labels = [''dshield'', ''botnet'']\<rparr>]"
proof -
  let ?r = "\<lparr>ref_id = ''ref-dshield.org''\<rparr>"
  let ?e = "[''ip'' \<mapsto> ''1.2.3.4'', ''description'' \<mapsto> ''botnet'']"
  have n: "[''description'' \<mapsto> ''x''] ''ip'' = None" by simp
  have s: "?e ''ip'' = Some ''1.2.3.4''" by simp
  have f: "fst (process_entry (mem_env reliable) dshield ?r ?e [] (start [])) =
     Inr [\<lparr>obj_type = ''ipv4-addr'', obj_value = ''1.2.3.4'',
           obj_labels = [''dshield'', ''botnet'']\<rparr>]"
    by (simp add: run_defs)
  show ?thesis
    using process_entry_normalizes
            [of "[''description'' \<mapsto> ''x'']" "mem_env reliable" dshield ?r "[]" "start []" "''1.2.3.4''"]
          process_entry_normalizes
            [of ?e "mem_env reliable" dshield ?r "[]" "start []" "''1.2.3.4''"]
          n s f
    by (simp add: lower_def lower_char_def insert_commute start_def)
qed

subsection \<open>The loop over the entries\<close>

lemma process_entries_submitted:
  "set (submitted_values (trace (snd (process_entries E self r data objects w)))) \<subseteq>
     set (submitted_values (trace w)) \<union> set (ips data)"
proof (induction data arbitrary: objects w)
  case Nil
  then show ?case by simp
next
  case (Cons entry rest)
  let ?p = "process_entry E self r entry objects w"
  have s: "set (submitted_values (trace (snd ?p))) \<subseteq>
             set (submitted_values (trace w)) \<union> set (ips (entry # rest))"
    by (auto simp: process_entry_submitted ips_Cons split: option.splits)
  show ?case
  proof (cases "fst ?p")
    case (Inl x)
    then show ?thesis using s by (simp add: case_prod_unfold)
  next
    case (Inr objects')
    have "set (submitted_values (trace (snd (process_entries E self r rest objects' (snd ?p))))) \<subseteq>
            set (submitted_values (trace (snd ?p))) \<union> set (ips rest)"
      by (rule Cons.IH)
    then show ?thesis using s Inr by (auto simp: case_prod_unfold ips_Cons)
  qed
qed

lemma process_entries_objects:
  "fst (process_entries E self r data objects w) = Inr objects' \<Longrightarrow>
     set (map obj_value objects') \<subseteq> set (map obj_value objects) \<union> set (ips data)"
proof (induction data arbitrary: objects w)
  case Nil
  then show ?case by auto
next
  case (Cons entry rest)
  let ?p = "process_entry E self r entry objects w"
  show ?case
  proof (cases "fst ?p")
    case (Inl x)
    then show ?thesis using Cons.prems by (simp add: case_prod_unfold)
  next
    case (Inr objects1)
    have o: "set (map obj_value objects1) \<subseteq> set (map obj_value objects) \<union> set (ips (entry # rest))"
      using Inr by (auto simp: process_entry_result ips_Cons split: option.splits sum.splits)
    have "fst (process_entries E self r rest objects1 (snd ?p)) = Inr objects'"
      using Cons.prems Inr by (simp add: case_prod_unfold)
    then have "set (map obj_value objects') \<subseteq> set (map obj_value objects1) \<union> set (ips rest)"
      by (rule Cons.IH)
    then show ?thesis using o by (auto simp: ips_Cons)
  qed
qed

lemma create_opencti_objects_submitted:
  "set (submitted_values (trace (snd (create_opencti_objects E self data tm w)))) \<subseteq>
     set (submitted_values (trace w)) \<union> set (ips data)"
proof -
  let ?w3 = "snd (invoke (External_reference_create ''dshield.org'' feed_url)
                (external_reference_create E ''dshield.org'' feed_url)
                (logger_info (Total_unique_labels (length (fst (extract_labels data w))))
                   (snd (extract_labels data w))))"
  have a: "submitted_values (trace ?w3) = submitted_values (trace w)"
    by (simp add: invoke_eq log_defs extract_labels_def Let_def)
  have "set (submitted_values (trace (snd (process_entries E self r data [] ?w3)))) \<subseteq>
          set (submitted_values (trace w)) \<union> set (ips data)" for r
    using process_entries_submitted[of E self r data "[]" ?w3] by (simp add: a)
  then show ?thesis
    using a
    by (auto simp: create_opencti_objects_def case_prod_unfold Let_def log_defs
             split: sum.splits)
qed

lemma create_opencti_objects_objects:
  assumes "fst (create_opencti_objects E self data tm w) = Inr out"
  shows "set (map obj_value (out_objects out)) \<subseteq> set (ips data)"
proof -
  obtain r w3 where "fst (process_entries E self r data [] w3) = Inr (out_objects out)"
    using assms
    by (auto simp: create_opencti_objects_def case_prod_unfold Let_def split: sum.splits)
  from process_entries_objects[OF this] show ?thesis by simp
qed

text \<open>
  C8, as stated: no observable with an empty value is submitted or published. The source
  skips an entry only when the key \<open>ip\<close> is absent, so an entry whose \<open>ip\<close> is the
  empty string is submitted and published with an empty value.
\<close>

theorem empty_ip_is_submitted:
  "submitted_values (trace (run (mem_env reliable) dshield False (start [[''ip'' \<mapsto> '''']]))) =
     [''''] \<and>
   File_write ''dshield_export.json''
     \<lparr>out_labels = [],
      out_objects = [\<lparr>obj_type = ''ipv4-addr'', obj_value = '''', obj_labels = [''dshield'']\<rparr>]\<rparr>
     \<in> set (trace (run (mem_env reliable) dshield False (start [[''ip'' \<mapsto> '''']])))"
  by (simp add: run_defs)

text \<open>
  C8, amended: every value submitted to the store and every published value is the
  \<open>ip\<close> value of an input record that has the key; so the submitted and the published
  values are non-empty whenever no input record has the empty string as its \<open>ip\<close>.
\<close>

theorem published_values_are_ips:
  "set (submitted_values (trace (snd (create_opencti_objects E self data tm w)))) \<subseteq>
     set (submitted_values (trace w)) \<union> set (ips data) \<and>
   ([] \<notin> set (ips data) \<and> [] \<notin> set (submitted_values (trace w)) \<longrightarrow>
      [] \<notin> set (submitted_values (trace (snd (create_opencti_objects E self data tm w))))) \<and>
   (fst (create_opencti_objects E self data tm w) = Inr out \<longrightarrow>
      set (map obj_value (out_objects out)) \<subseteq> set (ips data) \<and>
      ([] \<notin> set (ips data) \<longrightarrow> [] \<notin> set (map obj_value (out_objects out))))"
  using create_opencti_objects_submitted[of E self data tm w]
    create_opencti_objects_objects[of E self data tm w out]
  by auto

theorem published_values_are_ips_witness:
  "[] \<notin> set (ips [[''ip'' \<mapsto> ''1.2.3.4''], [''description'' \<mapsto> ''x'']]) \<and>
   [] \<notin> set (submitted_values (trace (snd (create_opencti_objects (mem_env reliable) dshield
      [[''ip'' \<mapsto> ''1.2.3.4''], [''description'' \<mapsto> ''x'']] False (start []))))) \<and>
   fst (create_opencti_objects (mem_env reliable) dshield
      [[''ip'' \<mapsto> ''1.2.3.4''], [''description'' \<mapsto> ''x'']] False (start [])) =
     Inr \<lparr>out_labels = [''x''],
          out_objects =
            [\<lparr>obj_type = ''ipv4-addr'', obj_value = ''1.2.3.4'', obj_labels = [''dshield'']\<rparr>]\<rparr> \<and>
   [] \<notin> set (map obj_value (out_objects
      \<lparr>out_labels = [''x''],
       out_objects =
         [\<lparr>obj_type = ''ipv4-addr'', obj_value = ''1.2.3.4'', obj_labels = [''dshield'']\<rparr>]\<rparr>))"
proof -
  let ?d = "[[''ip'' \<mapsto> ''1.2.3.4''], [''description'' \<mapsto> ''x'']]"
  let ?o = "\<lparr>out_labels = [''x''],
       out_objects =
         [\<lparr>obj_type = ''ipv4-addr'', obj_value = ''1.2.3.4'', obj_labels = [''dshield'']\<rparr>]\<rparr>"
  have i: "[] \<notin> set (ips ?d)" by (simp add: ips_def)
  have z: "[] \<notin> set (submitted_values (trace (start [])))" by (simp add: start_def)
  have f: "fst (create_opencti_objects (mem_env reliable) dshield ?d False (start [])) = Inr ?o"
    by (simp add: run_defs)
  show ?thesis
    using published_values_are_ips [of "mem_env reliable" dshield ?d False "start []" ?o] i z f
    by blast
qed

subsection \<open>Failures of single labels\<close>












subsection \<open>Failures of the creation of an observable\<close>









subsection \<open>The test flag\<close>

lemma create_opencti_objects_ignores_test_mode:
  "create_opencti_objects E self data True = create_opencti_objects E self data False"
  by (rule ext) (simp add: create_opencti_objects_def)

lemma run_ignores_test_mode: "run E self True w = run E self False w"
  unfolding run_def create_opencti_objects_ignores_test_mode ..

text \<open>
  C4: \<open>main\<close> with the test flag set, on a feed of one record, issues every call against
  the store that a run without the flag issues: the flag is parsed and passed down to
  \<open>create_opencti_objects\<close>, which never reads it.
\<close>

theorem test_mode_calls_the_store:
  "store_calls (trace (snd (main (mem_env reliable) \<lparr>test = True, debug = False\<rparr> 60
      (start [[''ip'' \<mapsto> ''1.2.3.4'']])))) =
     [External_reference_create ''dshield.org'' ''https://dshield.org/'',
      Identity_create ''Organization'' ''DShield'' ''DShield Intel Feed importer''
        [''ref-dshield.org''],
      External_reference_create ''dshield.org'' ''https://isc.sans.edu/api/intelfeed?json'',
      Observable_create
        (create_kwargs dshield ''IPv4-Addr.value'' ''1.2.3.4'' ''IPv4-Addr'' ''ref-dshield.org''),
      Label_list ''dshield'',
      Label_create ''dshield'' ''#ffa500'',
      Add_label ''obs-1.2.3.4'' ''label-dshield'']"
  by (simp add: main_def init_def run_defs)

lemma main_ignores_test_flag:
  "main E \<lparr>test = True, debug = d\<rparr> c w = main E \<lparr>test = False, debug = d\<rparr> c w"
  unfolding main_def args.simps run_ignores_test_mode ..

subsection \<open>Creating a label once\<close>

lemma within_one_refl [simp]: "within_one E t w w"
  by (simp add: within_one_def)

lemma within_one_trans:
  "within_one E t w w1 \<Longrightarrow> within_one E t w1 w2 \<Longrightarrow> within_one E t w w2"
  unfolding within_one_def by (cases "finds E (ext w) t"; cases "finds E (ext w1) t") auto

lemma within_one_emit:
  "label_creations [e] = [] \<Longrightarrow> within_one E t w (emit e w)"
  by (simp add: within_one_def creations_def)

lemma within_one_logs [simp]:
  "within_one E t w (logger_info m w)"
  "within_one E t w (logger_error m w)"
  "within_one E t w (helper_log_error m w)"
  "within_one E t w (time_sleep w)"
  by (simp_all add: log_defs within_one_emit)

lemma count_list_snoc: "count_list (xs @ [v]) t = count_list xs t + (if v = t then 1 else 0)"
  by (induction xs) auto

lemma labels_persistD:
  assumes "labels_persist E"
  shows "finds E (snd (label_create E t c s)) t"
    and "finds E s t \<Longrightarrow> finds E (snd (label_list E v s)) t"
    and "finds E s t \<Longrightarrow> finds E (snd (label_create E v c s)) t"
    and "finds E s t \<Longrightarrow> finds E (snd (stix_cyber_observable_create E a s)) t"
    and "finds E s t \<Longrightarrow> finds E (snd (stix_cyber_observable_add_label E i l s)) t"
  using assms unfolding labels_persist_def by blast+

lemma get_label_within_one:
  assumes "labels_persist E"
  shows "within_one E t w (snd (get_label E v c w))"
proof (cases "v = t")
  case False
  then show ?thesis
    using labels_persistD(2,3)[OF assms]
    by (auto simp: within_one_def creations_def get_label_def invoke_eq log_defs Let_def
          count_list_snoc split: sum.splits option.splits)
next
  case True
  show ?thesis
  proof (cases "fst (label_list E t (ext w))")
    case (Inl x)
    then have nf: "\<not> finds E (ext w) t" by (simp add: finds_def)
    show ?thesis
      using True Inl nf
      by (simp add: within_one_def creations_def get_label_def invoke_eq log_defs Let_def)
  next
    case (Inr ls)
    show ?thesis
    proof (cases "find (\<lambda>l. lower (lbl_value l) = lower t) ls")
      case None
      then have nf: "\<not> finds E (ext w) t" using Inr by (simp add: finds_def)
      have f: "finds E (snd (label_create E t c (snd (label_list E t (ext w))))) t"
        by (rule labels_persistD(1)[OF assms])
      show ?thesis
        using True Inr None nf f
        by (simp add: within_one_def creations_def get_label_def invoke_eq log_defs Let_def
              count_list_snoc split: sum.splits)
    next
      case (Some l)
      then have "finds E (ext w) t" using Inr by (simp add: finds_def)
      then have "finds E (snd (label_list E t (ext w))) t"
        by (rule labels_persistD(2)[OF assms])
      then show ?thesis
        using True Inr Some
        by (simp add: within_one_def creations_def get_label_def invoke_eq log_defs Let_def)
    qed
  qed
qed

lemma within_one_add_label:
  assumes "labels_persist E"
  shows "within_one E t w
           (snd (invoke (Add_label i l) (stix_cyber_observable_add_label E i l) w))"
  using labels_persistD(5)[OF assms]
  by (simp add: within_one_def creations_def invoke_eq)

lemma within_one_observable_create:
  assumes "labels_persist E"
  shows "within_one E t w
           (snd (invoke (Observable_create a) (stix_cyber_observable_create E a) w))"
  using labels_persistD(4)[OF assms]
  by (simp add: within_one_def creations_def invoke_eq)

lemma try_add_label_within_one:
  assumes "labels_persist E"
  shows "within_one E t w (snd (try_add_label E obs l w))"
proof -
  let ?g = "get_label E l default_color w"
  have g: "within_one E t w (snd ?g)"
    by (rule get_label_within_one[OF assms])
  have a: "within_one E t w
             (snd (invoke (Add_label i lid) (stix_cyber_observable_add_label E i lid)
                     (time_sleep (snd ?g))))" for i lid
    by (rule within_one_trans[OF g within_one_trans[OF within_one_logs(4)
          within_one_add_label[OF assms]]])
  show ?thesis
    using g a by (auto simp: try_add_label_def case_prod_unfold split: sum.splits)
qed

lemma add_label_step_within_one:
  assumes "labels_persist E"
  shows "within_one E t w (add_label_step E obs v l w)"
proof -
  let ?y = "try_add_label E obs l w"
  have y: "within_one E t w (snd ?y)"
    by (rule try_add_label_within_one[OF assms])
  have h: "within_one E t w (time_sleep (helper_log_error m (snd ?y)))" for m
    by (rule within_one_trans[OF y within_one_trans[OF within_one_logs(3) within_one_logs(4)]])
  show ?thesis
    using y h by (auto simp: add_label_step_def case_prod_unfold split: sum.splits)
qed

lemma add_labels_within_one:
  assumes "labels_persist E"
  shows "within_one E t w (add_labels E obs v ls w)"
proof (induction ls arbitrary: w)
  case Nil
  then show ?case by simp
next
  case (Cons l rest)
  show ?case
    using within_one_trans[OF add_label_step_within_one[OF assms] Cons.IH]
    by simp
qed

lemma create_observable_within_one:
  assumes "labels_persist E"
  shows "within_one E t w (snd (create_observable E self k v d ty r ls w))"
proof -
  let ?a = "create_kwargs self k v ty r"
  let ?w1 = "snd (invoke (Observable_create ?a) (stix_cyber_observable_create E ?a) w)"
  have c: "within_one E t w ?w1"
    by (rule within_one_observable_create[OF assms])
  have l: "within_one E t w (add_labels E obs v ls ?w1)" for obs
    by (rule within_one_trans[OF c add_labels_within_one[OF assms]])
  show ?thesis
    using c l
    by (auto simp: create_observable_def Let_def case_prod_unfold split: sum.splits option.splits)
qed

lemma process_entry_within_one:
  assumes "labels_persist E"
  shows "within_one E t w (snd (process_entry E self r entry objects w))"
proof (cases "entry ''ip''")
  case None
  then show ?thesis by (simp add: process_entry_no_ip)
next
  case (Some i)
  let ?w1 = "logger_info (Creating_observable i (entry_labels entry)) w"
  let ?c = "create_observable E self ''IPv4-Addr.value'' i (''DShield Intel Feed entry for '' @ i)
              ''IPv4-Addr'' (ref_id r) (entry_labels entry) ?w1"
  have c: "within_one E t w (snd ?c)"
    by (rule within_one_trans[OF within_one_logs(1) create_observable_within_one[OF assms]])
  have s: "within_one E t w (logger_info m (snd ?c))" for m
    by (rule within_one_trans[OF c within_one_logs(1)])
  show ?thesis
    using c s
    by (auto simp: process_entry_def Some Let_def case_prod_unfold
             split: sum.splits option.splits)
qed

lemma process_entries_within_one:
  assumes "labels_persist E"
  shows "within_one E t w (snd (process_entries E self r data objects w))"
proof (induction data arbitrary: objects w)
  case Nil
  then show ?case by simp
next
  case (Cons entry rest)
  let ?p = "process_entry E self r entry objects w"
  have p: "within_one E t w (snd ?p)"
    by (rule process_entry_within_one[OF assms])
  show ?case
  proof (cases "fst ?p")
    case (Inl x)
    then show ?thesis using p by (simp add: case_prod_unfold)
  next
    case (Inr objects')
    then show ?thesis
      using within_one_trans[OF p Cons.IH[of "snd ?p" objects']]
      by (simp add: case_prod_unfold)
  qed
qed

lemma within_one_bound: "within_one E t w w' \<Longrightarrow> creations t w' \<le> Suc (creations t w)"
  by (auto simp: within_one_def)

lemma fetch_dshield_data_creations:
  "label_creations (trace (snd (fetch_dshield_data E w))) = label_creations (trace w)"
  by (simp add: fetch_dshield_data_def invoke_eq log_defs split: sum.splits exn.splits)

lemma save_to_json_creations:
  "label_creations (trace (save_to_json E out f w)) = label_creations (trace w)"
  by (simp add: save_to_json_def invoke_eq log_defs split: sum.splits)

lemma create_opencti_objects_creations:
  assumes "labels_persist E"
  shows "creations t (snd (create_opencti_objects E self data tm w)) \<le> Suc (creations t w)"
proof -
  let ?w3 = "snd (invoke (External_reference_create ''dshield.org'' feed_url)
                (external_reference_create E ''dshield.org'' feed_url)
                (logger_info (Total_unique_labels (length (fst (extract_labels data w))))
                   (snd (extract_labels data w))))"
  have a: "creations t ?w3 = creations t w"
    by (simp add: creations_def invoke_eq log_defs extract_labels_def Let_def)
  have b: "creations t (snd (process_entries E self r data [] ?w3)) \<le> Suc (creations t w)" for r
    using within_one_bound[OF process_entries_within_one[OF assms, of t ?w3 self r data "[]"]]
    by (simp add: a)
  have c: "creations t (logger_info m v) = creations t v" for m and v :: "'a world"
    by (simp add: creations_def log_defs)
  show ?thesis
    using a b
    by (auto simp: create_opencti_objects_def case_prod_unfold Let_def c split: sum.splits)
qed

lemma run_creations:
  assumes "labels_persist E"
  shows "creations t (run E self tm w) \<le> Suc (creations t w)"
proof -
  let ?f = "fetch_dshield_data E (logger_info Fetching_data w)"
  let ?c = "create_opencti_objects E self (fst ?f) tm (logger_info Creating_objects (snd ?f))"
  have f: "creations t (snd ?f) = creations t w"
    by (simp add: creations_def fetch_dshield_data_creations log_defs)
  have c: "creations t (snd ?c) \<le> Suc (creations t w)"
    using create_opencti_objects_creations[OF assms, of t self "fst ?f" tm
            "logger_info Creating_objects (snd ?f)"] f
    by (simp add: creations_def log_defs)
  show ?thesis
    using f c
    by (auto simp: run_def case_prod_unfold creations_def log_defs save_to_json_creations
             split: sum.splits)
qed

lemma get_label_found:
  assumes "finds E (ext w) t"
  shows "label_creations (trace (snd (get_label E t c w))) = label_creations (trace w)"
    and "\<exists>ls l. fst (label_list E t (ext w)) = Inr ls \<and>
                find (\<lambda>l. lower (lbl_value l) = lower t) ls = Some l \<and>
                fst (get_label E t c w) = Inr (lbl_id l)"
proof -
  obtain ls l where ls: "fst (label_list E t (ext w)) = Inr ls"
    and l: "find (\<lambda>l. lower (lbl_value l) = lower t) ls = Some l"
    using assms by (auto simp: finds_def split: sum.splits)
  show "label_creations (trace (snd (get_label E t c w))) = label_creations (trace w)"
    by (simp add: get_label_creations ls l)
  have "fst (get_label E t c w) = Inr (lbl_id l)"
    using ls l by (simp add: get_label_def invoke_eq log_defs Let_def)
  then show "\<exists>ls l. fst (label_list E t (ext w)) = Inr ls \<and>
                find (\<lambda>l. lower (lbl_value l) = lower t) ls = Some l \<and>
                fst (get_label E t c w) = Inr (lbl_id l)"
    using ls l by blast
qed

text \<open>
  C2, as stated: the creation call for a label is invoked at most once in a run. When the
  creation call raises, nothing is remembered and the label is still absent from the
  store, so the next record that carries the label invokes it again.
\<close>

theorem failed_label_creation_is_repeated:
  "count_list (label_creations (trace (run (mem_env label_creation_raises) dshield False
      (start [[''ip'' \<mapsto> ''1.2.3.4''], [''ip'' \<mapsto> ''5.6.7.8'']])))) ''dshield'' = 2"
  by (simp add: run_defs plan_defs)

text \<open>
  C2, amended: against a store whose labels persist, a run invokes the creation call for
  a label at most once, however many records carry the label; and whenever the search
  returns a label whose value matches without regard to case, \<open>get_label\<close> invokes no
  creation call and returns the handle of the first such label among those the search
  returned.
\<close>

theorem label_created_at_most_once:
  assumes "labels_persist E"
  shows "count_list (label_creations (trace (run E self tm w))) t \<le>
           Suc (count_list (label_creations (trace w)) t) \<and>
         (finds E (ext w') t \<longrightarrow>
            label_creations (trace (snd (get_label E t c w'))) = label_creations (trace w') \<and>
            (\<exists>ls l. fst (label_list E t (ext w')) = Inr ls \<and>
                    find (\<lambda>l. lower (lbl_value l) = lower t) ls = Some l \<and>
                    fst (get_label E t c w') = Inr (lbl_id l)))"
  using run_creations[OF assms, of t self tm w] get_label_found[of E w' t c]
  by (simp add: creations_def)

lemma finds_mem:
  "finds (mem_env reliable) s t \<longleftrightarrow> (\<exists>l \<in> set (mem_labels s). lower (lbl_value l) = lower t)"
  by (auto simp: finds_def mem_env_def planned_def reliable_def find_None_iff)

lemma mem_reliable_states:
  "snd (label_list (mem_env reliable) v s) = s"
  "snd (label_create (mem_env reliable) v c s) =
     s\<lparr>mem_labels := mem_labels s @ [\<lparr>lbl_id = ''label-'' @ v, lbl_value = v\<rparr>]\<rparr>"
  "snd (stix_cyber_observable_create (mem_env reliable) a s) = s"
  "snd (stix_cyber_observable_add_label (mem_env reliable) i l s) = s"
  by (simp_all add: mem_env_def planned_def reliable_def)

lemma labels_persist_mem: "labels_persist (mem_env reliable)"
  by (simp add: labels_persist_def finds_mem mem_reliable_states)

theorem label_created_at_most_once_witness:
  "labels_persist (mem_env reliable) \<and>
   count_list (label_creations (trace (run (mem_env reliable) dshield False
      (start [[''ip'' \<mapsto> ''1.2.3.4''], [''ip'' \<mapsto> ''5.6.7.8'']])))) ''dshield'' \<le> 1 \<and>
   label_creations (trace (snd (get_label (mem_env reliable) ''dshield'' default_color
      \<lparr>ext = \<lparr>feed = Inr [], mem_labels = [\<lparr>lbl_id = ''label-1'', lbl_value = ''DShield''\<rparr>],
              mem_files = []\<rparr>, trace = []\<rparr>))) = [] \<and>
   fst (get_label (mem_env reliable) ''dshield'' default_color
      \<lparr>ext = \<lparr>feed = Inr [], mem_labels = [\<lparr>lbl_id = ''label-1'', lbl_value = ''DShield''\<rparr>],
              mem_files = []\<rparr>, trace = []\<rparr>) = Inr ''label-1''"
proof -
  let ?w = "\<lparr>ext = \<lparr>feed = Inr [], mem_labels = [\<lparr>lbl_id = ''label-1'', lbl_value = ''DShield''\<rparr>],
              mem_files = []\<rparr>, trace = []\<rparr>"
  have f: "finds (mem_env reliable) (ext ?w) ''dshield''"
    by (simp add: finds_mem lower_def lower_char_def)
  have s: "fst (label_list (mem_env reliable) ''dshield'' (ext ?w)) =
             Inr [\<lparr>lbl_id = ''label-1'', lbl_value = ''DShield''\<rparr>]"
    by (simp add: mem_defs lower_def lower_char_def)
  have z: "label_creations (trace (start [[''ip'' \<mapsto> ''1.2.3.4''], [''ip'' \<mapsto> ''5.6.7.8'']])) = []"
    by (simp add: start_def)
  have t: "label_creations (trace ?w) = []" by simp
  note th = label_created_at_most_once [OF labels_persist_mem,
      where self = dshield and tm = False
        and w = "start [[''ip'' \<mapsto> ''1.2.3.4''], [''ip'' \<mapsto> ''5.6.7.8'']]"
        and t = "''dshield''" and w' = ?w and c = default_color]
  have a: "count_list (label_creations (trace (run (mem_env reliable) dshield False
          (start [[''ip'' \<mapsto> ''1.2.3.4''], [''ip'' \<mapsto> ''5.6.7.8'']])))) ''dshield'' \<le> 1"
    using th[THEN conjunct1] by (simp only: z count_list.simps One_nat_def)
  have b: "label_creations (trace (snd (get_label (mem_env reliable) ''dshield'' default_color ?w))) = []"
    using th[THEN conjunct2] f by (simp only: t simp_thms)
  obtain ls l where ls: "fst (label_list (mem_env reliable) ''dshield'' (ext ?w)) = Inr ls"
    and l: "find (\<lambda>l. lower (lbl_value l) = lower ''dshield'') ls = Some l"
    and g: "fst (get_label (mem_env reliable) ''dshield'' default_color ?w) = Inr (lbl_id l)"
    using th[THEN conjunct2] f by blast
  have "ls = [\<lparr>lbl_id = ''label-1'', lbl_value = ''DShield''\<rparr>]"
    using ls s by simp
  then have "l = \<lparr>lbl_id = ''label-1'', lbl_value = ''DShield''\<rparr>"
    using l by (simp add: lower_def lower_char_def split: if_splits)
  then have "fst (get_label (mem_env reliable) ''dshield'' default_color ?w) = Inr ''label-1''"
    using g by simp
  then show ?thesis
    using labels_persist_mem a b by (simp only: simp_thms)
qed

end
